theory Spec2Isabelle
  imports Main "HOL-Library.Finite_Map"
begin

section \<open>Remote Config storage (packages/remote-config/src/storage/storage.ts)\<close>

subsection \<open>JavaScript values\<close>

text \<open>
  The volatile backend keeps \<^verbatim>\<open>{ [key: string]: unknown }\<close> and both backends are
  generic in the stored type, so a stored value is any JavaScript value: the primitives
  and objects, an object being the finite map of its own enumerable string-keyed
  properties (an array is the object of its index properties). The order in which an
  object enumerates its properties is not represented; nothing below depends on it.
  Numbers are IEEE doubles in the program; their type is the parameter \<open>'n\<close>.
\<close>

datatype 'n jsval =
    JUndefined
  | JNull
  | JBool bool
  | JNum 'n
  | JStr string
  | JObj "(string, 'n jsval) fmap"

text \<open>\<^verbatim>\<open>CustomSignals\<close> is \<^verbatim>\<open>{ [key: string]: string | number | null }\<close>.\<close>

type_synonym 'n CustomSignals = "(string, 'n jsval) fmap"

fun is_signal_value :: "'n jsval \<Rightarrow> bool" where
  "is_signal_value (JStr s) = True"
| "is_signal_value (JNum n) = True"
| "is_signal_value JNull = True"
| "is_signal_value v = False"

definition is_CustomSignals :: "'n CustomSignals \<Rightarrow> bool" where
  "is_CustomSignals m = fmpred (\<lambda>k v. is_signal_value v) m"

fun is_string :: "'n jsval \<Rightarrow> bool" where
  "is_string (JStr s) = True"
| "is_string v = False"

text \<open>
  What the program takes from its surroundings: the constant
  \<^verbatim>\<open>RC_CUSTOM_SIGNAL_MAX_ALLOWED_SIGNALS\<close> of \<^verbatim>\<open>../constants\<close>, and two built-ins of
  the language on numbers, \<^verbatim>\<open>Number.prototype.toString\<close> and the truth value of a
  number (false for zero and NaN).
\<close>

record 'n env =
  RC_CUSTOM_SIGNAL_MAX_ALLOWED_SIGNALS :: nat
  toString :: "'n \<Rightarrow> string"
  numberToBoolean :: "'n \<Rightarrow> bool"

fun ToBoolean :: "'n env \<Rightarrow> 'n jsval \<Rightarrow> bool" where
  "ToBoolean E JUndefined = False"
| "ToBoolean E JNull = False"
| "ToBoolean E (JBool b) = b"
| "ToBoolean E (JNum n) = numberToBoolean E n"
| "ToBoolean E (JStr s) = (s \<noteq> [])"
| "ToBoolean E (JObj ps) = True"

text \<open>Decimal numerals, the names of the index properties of a string.\<close>

fun decimal :: "nat \<Rightarrow> string" where
  "decimal n = (if n < 10 then [''0123456789'' ! n]
     else decimal (n div 10) @ [''0123456789'' ! (n mod 10)])"

declare decimal.simps [simp del]

text \<open>
  The properties an object spread \<^verbatim>\<open>{ ...v }\<close> copies from \<open>v\<close>: those of an object,
  the characters of a string under their indices, none of any other primitive.
\<close>

fun spread :: "'n jsval \<Rightarrow> (string, 'n jsval) fmap" where
  "spread (JObj ps) = ps"
| "spread (JStr s) = fmap_of_list (zip (map decimal [0..<length s]) (map (\<lambda>c. JStr [c]) s))"
| "spread v = fmempty"

subsection \<open>Errors\<close>

datatype ErrorCode =
    STORAGE_OPEN
  | STORAGE_GET
  | STORAGE_SET
  | STORAGE_DELETE
  | CUSTOM_SIGNAL_MAX_ALLOWED_SIGNALS

datatype ErrorData =
    originalErrorMessage "string option"
  | maxSignals nat

text \<open>\<^verbatim>\<open>ERROR_FACTORY.create(code, data)\<close> is the constructor.\<close>

datatype FirebaseError = FirebaseError ErrorCode ErrorData

text \<open>
  How a request to the database ends: its \<^verbatim>\<open>onsuccess\<close> handler runs, its
  \<^verbatim>\<open>onerror\<close> handler runs (with the message of the request's error, if it has one), or
  issuing it throws and the \<^verbatim>\<open>catch\<close> block runs.
\<close>

datatype request_event =
    onsuccess
  | onerror "string option"
  | thrown "string option"

definition toFirebaseError :: "string option \<Rightarrow> ErrorCode \<Rightarrow> FirebaseError" where
  "toFirebaseError originalError errorCode =
     FirebaseError errorCode (originalErrorMessage originalError)"

subsection \<open>Keys\<close>

datatype ProjectNamespaceKeyFieldValue =
    active_config
  | active_config_etag
  | last_fetch_status
  | last_successful_fetch_timestamp_millis
  | last_successful_fetch_response
  | settings
  | throttle_metadata
  | custom_signals

fun key_string :: "ProjectNamespaceKeyFieldValue \<Rightarrow> string" where
  "key_string active_config = ''active_config''"
| "key_string active_config_etag = ''active_config_etag''"
| "key_string last_fetch_status = ''last_fetch_status''"
| "key_string last_successful_fetch_timestamp_millis =
     ''last_successful_fetch_timestamp_millis''"
| "key_string last_successful_fetch_response = ''last_successful_fetch_response''"
| "key_string settings = ''settings''"
| "key_string throttle_metadata = ''throttle_metadata''"
| "key_string custom_signals = ''custom_signals''"

subsection \<open>mergeCustomSignals\<close>

text \<open>
  \<open>combinedSignals\<close> is \<^verbatim>\<open>{ ...storedSignals, ...customSignals }\<close>; \<open>updatedSignals\<close> is
  \<^verbatim>\<open>Object.fromEntries(Object.entries(combinedSignals).filter(..).map(..))\<close>: the entries
  whose value is not \<^verbatim>\<open>null\<close>, a number replaced by its \<^verbatim>\<open>toString()\<close>.
\<close>

definition combinedSignals :: "'n CustomSignals \<Rightarrow> 'n CustomSignals \<Rightarrow> 'n CustomSignals" where
  "combinedSignals customSignals storedSignals = storedSignals ++\<^sub>f customSignals"

fun stringify :: "'n env \<Rightarrow> 'n jsval \<Rightarrow> 'n jsval" where
  "stringify E (JNum n) = JStr (toString E n)"
| "stringify E v = v"

definition updatedSignals ::
  "'n env \<Rightarrow> 'n CustomSignals \<Rightarrow> 'n CustomSignals \<Rightarrow> 'n CustomSignals" where
  "updatedSignals E customSignals storedSignals =
     (let combined = combinedSignals customSignals storedSignals
      in fmmap (stringify E) (fmfilter (\<lambda>k. fmlookup combined k \<noteq> Some JNull) combined))"

definition mergeCustomSignals ::
  "'n env \<Rightarrow> 'n CustomSignals \<Rightarrow> 'n CustomSignals \<Rightarrow> FirebaseError + 'n CustomSignals" where
  "mergeCustomSignals E customSignals storedSignals =
     (let updated = updatedSignals E customSignals storedSignals
      in if fcard (fmdom updated) > RC_CUSTOM_SIGNAL_MAX_ALLOWED_SIGNALS E
         then Inl (FirebaseError CUSTOM_SIGNAL_MAX_ALLOWED_SIGNALS
                     (maxSignals (RC_CUSTOM_SIGNAL_MAX_ALLOWED_SIGNALS E)))
         else Inr updated)"

text \<open>
  \<^verbatim>\<open>storedSignals || {}\<close>, then what \<open>mergeCustomSignals\<close> reads of it: the cast
  \<^verbatim>\<open>as CustomSignals\<close> checks nothing, and the only use of the stored value is the spread.
\<close>

definition storedOrEmpty :: "'n env \<Rightarrow> 'n jsval \<Rightarrow> 'n CustomSignals" where
  "storedOrEmpty E storedSignals =
     spread (if ToBoolean E storedSignals then storedSignals else JObj fmempty)"

subsection \<open>IndexedDbStorage\<close>

text \<open>
  An instance has its three scoping strings and \<open>openDbPromise\<close>, which is rejected with
  an error or resolved with the database. The object store \<^verbatim>\<open>app_namespace_store\<close>
  (key path \<^verbatim>\<open>compositeKey\<close>) is the state the operations pass along: the record stored
  under each key. The requests of one call run in sequence, with no other transaction
  between them; a request that fails leaves the store as it was; a record read back
  carries the value that was put.
\<close>

record IndexedDbStorage =
  appId :: string
  appName :: string
  namespace :: string
  openDbPromise :: "FirebaseError option"

record 'n db_record =
  compositeKey :: string
  value' :: "'n jsval"

type_synonym 'n object_store = "string \<rightharpoonup> 'n db_record"

text \<open>\<^verbatim>\<open>Array.prototype.join()\<close> with its default separator, the comma.\<close>

fun join :: "string list \<Rightarrow> string" where
  "join [] = []"
| "join [x] = x"
| "join (x # y # ys) = x @ '','' @ join (y # ys)"

definition createCompositeKey ::
  "IndexedDbStorage \<Rightarrow> ProjectNamespaceKeyFieldValue \<Rightarrow> string" where
  "createCompositeKey this key = join [appId this, appName this, namespace this, key_string key]"

definition getWithTransaction ::
  "IndexedDbStorage \<Rightarrow> ProjectNamespaceKeyFieldValue \<Rightarrow> request_event \<Rightarrow> 'n object_store
     \<Rightarrow> FirebaseError + 'n jsval" where
  "getWithTransaction this key ev store =
     (case ev of
        onsuccess \<Rightarrow>
          (case store (createCompositeKey this key) of
             Some result \<Rightarrow> Inr (value' result)
           | None \<Rightarrow> Inr JUndefined)
      | onerror msg \<Rightarrow> Inl (toFirebaseError msg STORAGE_GET)
      | thrown msg \<Rightarrow> Inl (FirebaseError STORAGE_GET (originalErrorMessage msg)))"

definition setWithTransaction ::
  "IndexedDbStorage \<Rightarrow> ProjectNamespaceKeyFieldValue \<Rightarrow> 'n jsval \<Rightarrow> request_event
     \<Rightarrow> 'n object_store \<Rightarrow> (FirebaseError + unit) \<times> 'n object_store" where
  "setWithTransaction this key v ev store =
     (case ev of
        onsuccess \<Rightarrow>
          (Inr (),
           store(createCompositeKey this key \<mapsto>
             \<lparr>compositeKey = createCompositeKey this key, value' = v\<rparr>))
      | onerror msg \<Rightarrow> (Inl (toFirebaseError msg STORAGE_SET), store)
      | thrown msg \<Rightarrow> (Inl (FirebaseError STORAGE_SET (originalErrorMessage msg)), store))"

definition IndexedDbStorage_get ::
  "IndexedDbStorage \<Rightarrow> ProjectNamespaceKeyFieldValue \<Rightarrow> request_event \<Rightarrow> 'n object_store
     \<Rightarrow> FirebaseError + 'n jsval" where
  "IndexedDbStorage_get this key ev store =
     (case openDbPromise this of
        Some e \<Rightarrow> Inl e
      | None \<Rightarrow> getWithTransaction this key ev store)"

definition IndexedDbStorage_set ::
  "IndexedDbStorage \<Rightarrow> ProjectNamespaceKeyFieldValue \<Rightarrow> 'n jsval \<Rightarrow> request_event
     \<Rightarrow> 'n object_store \<Rightarrow> (FirebaseError + unit) \<times> 'n object_store" where
  "IndexedDbStorage_set this key v ev store =
     (case openDbPromise this of
        Some e \<Rightarrow> (Inl e, store)
      | None \<Rightarrow> setWithTransaction this key v ev store)"

definition IndexedDbStorage_delete ::
  "IndexedDbStorage \<Rightarrow> ProjectNamespaceKeyFieldValue \<Rightarrow> request_event
     \<Rightarrow> 'n object_store \<Rightarrow> (FirebaseError + unit) \<times> 'n object_store" where
  "IndexedDbStorage_delete this key ev store =
     (case openDbPromise this of
        Some e \<Rightarrow> (Inl e, store)
      | None \<Rightarrow>
          (case ev of
             onsuccess \<Rightarrow> (Inr (), store(createCompositeKey this key := None))
           | onerror msg \<Rightarrow> (Inl (toFirebaseError msg STORAGE_DELETE), store)
           | thrown msg \<Rightarrow>
               (Inl (FirebaseError STORAGE_DELETE (originalErrorMessage msg)), store)))"

text \<open>
  \<open>setCustomSignals\<close> issues two requests in one transaction, the read (\<open>ev_get\<close>) and,
  when the read and the merge succeed, the write (\<open>ev_put\<close>). It returns the merged
  object, as does the volatile backend, which reads it back from \<open>storage\<close>.
\<close>

definition IndexedDbStorage_setCustomSignals ::
  "IndexedDbStorage \<Rightarrow> 'n env \<Rightarrow> 'n CustomSignals \<Rightarrow> request_event \<Rightarrow> request_event
     \<Rightarrow> 'n object_store \<Rightarrow> (FirebaseError + 'n jsval) \<times> 'n object_store" where
  "IndexedDbStorage_setCustomSignals this E customSignals ev_get ev_put store =
     (case openDbPromise this of
        Some e \<Rightarrow> (Inl e, store)
      | None \<Rightarrow>
          (case getWithTransaction this custom_signals ev_get store of
             Inl e \<Rightarrow> (Inl e, store)
           | Inr storedSignals \<Rightarrow>
               (case mergeCustomSignals E customSignals (storedOrEmpty E storedSignals) of
                  Inl e \<Rightarrow> (Inl e, store)
                | Inr updated \<Rightarrow>
                    (case setWithTransaction this custom_signals (JObj updated) ev_put store of
                       (Inl e, store') \<Rightarrow> (Inl e, store')
                     | (Inr u, store') \<Rightarrow> (Inr (JObj updated), store')))))"

subsection \<open>InMemoryStorage\<close>

text \<open>The field \<open>storage\<close>, an object that starts empty: the value of each property it has.\<close>

type_synonym 'n InMemoryStorage = "string \<rightharpoonup> 'n jsval"

definition InMemoryStorage_new :: "'n InMemoryStorage" where
  "InMemoryStorage_new = Map.empty"

text \<open>Reading a property the object does not have gives \<^verbatim>\<open>undefined\<close>.\<close>

definition property :: "'n InMemoryStorage \<Rightarrow> string \<Rightarrow> 'n jsval" where
  "property storage name = (case storage name of Some v \<Rightarrow> v | None \<Rightarrow> JUndefined)"

definition InMemoryStorage_get ::
  "'n InMemoryStorage \<Rightarrow> ProjectNamespaceKeyFieldValue \<Rightarrow> 'n jsval" where
  "InMemoryStorage_get storage key = property storage (key_string key)"

definition InMemoryStorage_set ::
  "'n InMemoryStorage \<Rightarrow> ProjectNamespaceKeyFieldValue \<Rightarrow> 'n jsval \<Rightarrow> 'n InMemoryStorage" where
  "InMemoryStorage_set storage key v = storage(key_string key \<mapsto> v)"

definition InMemoryStorage_delete ::
  "'n InMemoryStorage \<Rightarrow> ProjectNamespaceKeyFieldValue \<Rightarrow> 'n InMemoryStorage" where
  "InMemoryStorage_delete storage key = storage(key_string key \<mapsto> JUndefined)"

definition InMemoryStorage_setCustomSignals ::
  "'n env \<Rightarrow> 'n InMemoryStorage \<Rightarrow> 'n CustomSignals
     \<Rightarrow> (FirebaseError + 'n jsval) \<times> 'n InMemoryStorage" where
  "InMemoryStorage_setCustomSignals E storage customSignals =
     (let storedSignals = storedOrEmpty E (property storage ''custom_signals'')
      in case mergeCustomSignals E customSignals storedSignals of
           Inl e \<Rightarrow> (Inl e, storage)
         | Inr updated \<Rightarrow>
             (let storage' = storage(''custom_signals'' \<mapsto> JObj updated)
              in (Inr (property storage' ''custom_signals''), storage')))"

text \<open>The accessor of the abstract class \<open>Storage\<close> for the custom signals, on each backend.\<close>

definition InMemoryStorage_getCustomSignals :: "'n InMemoryStorage \<Rightarrow> 'n jsval" where
  "InMemoryStorage_getCustomSignals storage = InMemoryStorage_get storage custom_signals"

definition IndexedDbStorage_getCustomSignals ::
  "IndexedDbStorage \<Rightarrow> request_event \<Rightarrow> 'n object_store \<Rightarrow> FirebaseError + 'n jsval" where
  "IndexedDbStorage_getCustomSignals this ev store =
     IndexedDbStorage_get this custom_signals ev store"

subsection \<open>Histories of calls\<close>

text \<open>
  The calls a client makes on one instance. On the persistent backend each call comes
  with the way its requests end (the second event is used by \<open>setCustomSignals\<close> only).
  \<open>writes c key\<close> says that the call stores a value under the key.
\<close>

datatype 'n call =
    Get ProjectNamespaceKeyFieldValue
  | Set ProjectNamespaceKeyFieldValue "'n jsval"
  | Delete ProjectNamespaceKeyFieldValue
  | SetCustomSignals "'n CustomSignals"

fun writes :: "'n call \<Rightarrow> ProjectNamespaceKeyFieldValue \<Rightarrow> bool" where
  "writes (Get k) key = False"
| "writes (Set k v) key = (k = key)"
| "writes (Delete k) key = False"
| "writes (SetCustomSignals customSignals) key = (key = custom_signals)"

fun InMemoryStorage_call :: "'n env \<Rightarrow> 'n call \<Rightarrow> 'n InMemoryStorage \<Rightarrow> 'n InMemoryStorage" where
  "InMemoryStorage_call E (Get k) storage = storage"
| "InMemoryStorage_call E (Set k v) storage = InMemoryStorage_set storage k v"
| "InMemoryStorage_call E (Delete k) storage = InMemoryStorage_delete storage k"
| "InMemoryStorage_call E (SetCustomSignals customSignals) storage =
     snd (InMemoryStorage_setCustomSignals E storage customSignals)"

fun IndexedDbStorage_call ::
  "IndexedDbStorage \<Rightarrow> 'n env \<Rightarrow> 'n call \<times> request_event \<times> request_event
     \<Rightarrow> 'n object_store \<Rightarrow> 'n object_store" where
  "IndexedDbStorage_call this E (Get k, ev, ev') store = store"
| "IndexedDbStorage_call this E (Set k v, ev, ev') store =
     snd (IndexedDbStorage_set this k v ev store)"
| "IndexedDbStorage_call this E (Delete k, ev, ev') store =
     snd (IndexedDbStorage_delete this k ev store)"
| "IndexedDbStorage_call this E (SetCustomSignals customSignals, ev, ev') store =
     snd (IndexedDbStorage_setCustomSignals this E customSignals ev ev' store)"

subsection \<open>The merge as the specification words it\<close>

text \<open>
  Step 1, the overlay: the value of a key is the new one where the new signals have the
  key, the stored one otherwise. Steps 2 and 3: an entry whose value is \<^verbatim>\<open>null\<close> is
  dropped, a number becomes its string.
\<close>

definition overlay_spec :: "'n CustomSignals \<Rightarrow> 'n CustomSignals \<Rightarrow> string \<Rightarrow> 'n jsval option" where
  "overlay_spec newSignals storedSignals k =
     (case fmlookup newSignals k of Some v \<Rightarrow> Some v | None \<Rightarrow> fmlookup storedSignals k)"

definition merged_spec ::
  "'n env \<Rightarrow> 'n CustomSignals \<Rightarrow> 'n CustomSignals \<Rightarrow> string \<Rightarrow> 'n jsval option" where
  "merged_spec E newSignals storedSignals k =
     (case overlay_spec newSignals storedSignals k of
        None \<Rightarrow> None
      | Some JNull \<Rightarrow> None
      | Some (JNum n) \<Rightarrow> Some (JStr (toString E n))
      | Some v \<Rightarrow> Some v)"

text \<open>
  Step 4 counts the entries of the merged, null-filtered signals and fails with the error
  the specification calls CustomSignalLimitExceeded.
\<close>

definition nullFiltered_spec :: "'n CustomSignals \<Rightarrow> 'n CustomSignals \<Rightarrow> 'n CustomSignals" where
  "nullFiltered_spec newSignals storedSignals =
     fmfilter (\<lambda>k. fmlookup (storedSignals ++\<^sub>f newSignals) k \<noteq> Some JNull)
       (storedSignals ++\<^sub>f newSignals)"

definition CustomSignalLimitExceeded :: "'n env \<Rightarrow> FirebaseError" where
  "CustomSignalLimitExceeded E =
     FirebaseError CUSTOM_SIGNAL_MAX_ALLOWED_SIGNALS
       (maxSignals (RC_CUSTOM_SIGNAL_MAX_ALLOWED_SIGNALS E))"

subsection \<open>Concrete surroundings for the examples\<close>

text \<open>
  Whole numbers, printed as JavaScript prints them, and a limit of 100 signals; the same
  with a limit of 2; an instance of the persistent backend whose database opened.
\<close>

definition Number_toString_int :: "int \<Rightarrow> string" where
  "Number_toString_int i = (if i < 0 then ''-'' @ decimal (nat (- i)) else decimal (nat i))"

definition example_env :: "int env" where
  "example_env = \<lparr>RC_CUSTOM_SIGNAL_MAX_ALLOWED_SIGNALS = 100, toString = Number_toString_int,
     numberToBoolean = (\<lambda>i. i \<noteq> 0)\<rparr>"

definition small_env :: "int env" where
  "small_env = \<lparr>RC_CUSTOM_SIGNAL_MAX_ALLOWED_SIGNALS = 2, toString = Number_toString_int,
     numberToBoolean = (\<lambda>i. i \<noteq> 0)\<rparr>"

definition example_storage :: IndexedDbStorage where
  "example_storage = \<lparr>appId = ''1:23:web:ab'', appName = ''[DEFAULT]'',
     namespace = ''firebase'', openDbPromise = None\<rparr>"

text \<open>
  The signals of the specification's example (new, stored, merged), signals that are all
  \<^verbatim>\<open>null\<close>, and a store of each backend that holds the stored signals of the example.
\<close>

definition example_new :: "int CustomSignals" where
  "example_new = fmupd ''b'' JNull (fmupd ''c'' (JNum 3) fmempty)"

definition example_stored :: "int CustomSignals" where
  "example_stored = fmupd ''a'' (JStr ''1'') (fmupd ''b'' (JStr ''2'') fmempty)"

definition example_merged :: "int CustomSignals" where
  "example_merged = fmupd ''a'' (JStr ''1'') (fmupd ''c'' (JStr ''3'') fmempty)"

definition example_all_null :: "int CustomSignals" where
  "example_all_null = fmupd ''a'' JNull (fmupd ''b'' JNull fmempty)"

definition example_memory :: "int InMemoryStorage" where
  "example_memory = [''custom_signals'' \<mapsto> JObj example_stored]"

definition example_store :: "int object_store" where
  "example_store =
     [createCompositeKey example_storage custom_signals \<mapsto>
        \<lparr>compositeKey = createCompositeKey example_storage custom_signals,
         value' = JObj example_stored\<rparr>]"

definition example_three :: "int CustomSignals" where
  "example_three = fmupd ''c'' (JNum 3) fmempty"

definition other_storage :: IndexedDbStorage where
  "other_storage = \<lparr>appId = ''1:23:web:ab'', appName = ''[DEFAULT]'',
     namespace = ''fire,base'', openDbPromise = None\<rparr>"

definition example_calls :: "int call list" where
  "example_calls =
     [Set active_config_etag (JStr ''etag''), Delete throttle_metadata,
      SetCustomSignals example_new, Get settings]"

definition example_dbcalls :: "(int call \<times> request_event \<times> request_event) list" where
  "example_dbcalls =
     [(Set active_config_etag (JStr ''etag''), onsuccess, onsuccess),
      (Delete throttle_metadata, onerror None, onsuccess),
      (SetCustomSignals example_new, onsuccess, onsuccess),
      (Get settings, onsuccess, onsuccess)]"

section \<open>Properties\<close>

subsection \<open>Facts about the merge\<close>

lemma lookup_combinedSignals:
  "fmlookup (combinedSignals newSignals storedSignals) k = overlay_spec newSignals storedSignals k"
  by (auto simp: combinedSignals_def overlay_spec_def fmlookup_dom_iff split: option.splits)

lemma lookup_updatedSignals:
  "fmlookup (updatedSignals E newSignals storedSignals) k = merged_spec E newSignals storedSignals k"
proof (cases "overlay_spec newSignals storedSignals k")
  case None
  then show ?thesis
    by (simp add: updatedSignals_def Let_def merged_spec_def lookup_combinedSignals)
next
  case (Some v)
  then show ?thesis
    by (cases v) (simp_all add: updatedSignals_def Let_def merged_spec_def lookup_combinedSignals)
qed

lemma fmdom_updatedSignals:
  "fmdom (updatedSignals E newSignals storedSignals) = fmdom (nullFiltered_spec newSignals storedSignals)"
  by (simp add: updatedSignals_def Let_def nullFiltered_spec_def combinedSignals_def)

lemma mergeCustomSignals_cases:
  "mergeCustomSignals E newSignals storedSignals =
     (if RC_CUSTOM_SIGNAL_MAX_ALLOWED_SIGNALS E < fcard (fmdom (nullFiltered_spec newSignals storedSignals))
      then Inl (CustomSignalLimitExceeded E) else Inr (updatedSignals E newSignals storedSignals))"
  by (simp add: mergeCustomSignals_def Let_def fmdom_updatedSignals CustomSignalLimitExceeded_def)

lemma example_merge:
  "mergeCustomSignals example_env
     (fmupd ''b'' JNull (fmupd ''c'' (JNum 3) fmempty))
     (fmupd ''a'' (JStr ''1'') (fmupd ''b'' (JStr ''2'') fmempty))
   = Inr (fmupd ''a'' (JStr ''1'') (fmupd ''c'' (JStr ''3'') fmempty))"
  by code_simp

subsection \<open>Facts about the two backends\<close>

lemma storedOrEmpty_simps:
  "storedOrEmpty E (JObj m) = m"
  "storedOrEmpty E JUndefined = fmempty"
  by (simp_all add: storedOrEmpty_def)

lemma InMemoryStorage_setCustomSignals_cases:
  "InMemoryStorage_setCustomSignals E storage newSignals =
     (if RC_CUSTOM_SIGNAL_MAX_ALLOWED_SIGNALS E <
           fcard (fmdom (nullFiltered_spec newSignals (storedOrEmpty E (property storage ''custom_signals''))))
      then (Inl (CustomSignalLimitExceeded E), storage)
      else (Inr (JObj (updatedSignals E newSignals
                         (storedOrEmpty E (property storage ''custom_signals'')))),
            storage(''custom_signals'' \<mapsto>
              JObj (updatedSignals E newSignals
                      (storedOrEmpty E (property storage ''custom_signals''))))))"
  by (simp add: InMemoryStorage_setCustomSignals_def Let_def mergeCustomSignals_cases property_def)

lemma IndexedDbStorage_setCustomSignals_cases:
  assumes "openDbPromise this = None"
    and "getWithTransaction this custom_signals ev_get store = Inr storedSignals"
  shows "IndexedDbStorage_setCustomSignals this E newSignals ev_get ev_put store =
     (if RC_CUSTOM_SIGNAL_MAX_ALLOWED_SIGNALS E <
           fcard (fmdom (nullFiltered_spec newSignals (storedOrEmpty E storedSignals)))
      then (Inl (CustomSignalLimitExceeded E), store)
      else (case setWithTransaction this custom_signals
                   (JObj (updatedSignals E newSignals (storedOrEmpty E storedSignals))) ev_put store of
              (Inl e, store') \<Rightarrow> (Inl e, store')
            | (Inr u, store') \<Rightarrow>
                (Inr (JObj (updatedSignals E newSignals (storedOrEmpty E storedSignals))), store')))"
  using assms
  by (simp add: IndexedDbStorage_setCustomSignals_def mergeCustomSignals_cases)

lemma IndexedDbStorage_get_Inr:
  "IndexedDbStorage_get this key ev store = Inr v \<longleftrightarrow>
     openDbPromise this = None \<and> getWithTransaction this key ev store = Inr v"
  by (simp add: IndexedDbStorage_get_def split: option.splits)

lemma setWithTransaction_cases:
  "setWithTransaction this key v onsuccess store =
     (Inr (), store(createCompositeKey this key \<mapsto>
        \<lparr>compositeKey = createCompositeKey this key, value' = v\<rparr>))"
  "setWithTransaction this key v (onerror msg) store =
     (Inl (FirebaseError STORAGE_SET (originalErrorMessage msg)), store)"
  "setWithTransaction this key v (thrown msg) store =
     (Inl (FirebaseError STORAGE_SET (originalErrorMessage msg)), store)"
  by (simp_all add: setWithTransaction_def toFirebaseError_def)

lemma key_string_inj: "key_string k = key_string k' \<longleftrightarrow> k = k'"
  by (cases k; cases k'; simp)

lemma createCompositeKey_key_inj:
  "createCompositeKey this k = createCompositeKey this k' \<longleftrightarrow> k = k'"
  by (simp add: createCompositeKey_def key_string_inj)

lemma getWithTransaction_onsuccess:
  "getWithTransaction this key onsuccess store =
     Inr (case store (createCompositeKey this key) of Some r \<Rightarrow> value' r | None \<Rightarrow> JUndefined)"
  by (simp add: getWithTransaction_def split: option.splits)

lemma setWithTransaction_Inr:
  "fst (setWithTransaction this key v ev store) = Inr u \<Longrightarrow>
     snd (setWithTransaction this key v ev store) =
       store(createCompositeKey this key \<mapsto>
         \<lparr>compositeKey = createCompositeKey this key, value' = v\<rparr>)"
  by (cases ev) (simp_all add: setWithTransaction_cases)

lemma IndexedDbStorage_set_Inr:
  "fst (IndexedDbStorage_set this key v ev store) = Inr u \<Longrightarrow>
     openDbPromise this = None \<and>
     snd (IndexedDbStorage_set this key v ev store) =
       store(createCompositeKey this key \<mapsto>
         \<lparr>compositeKey = createCompositeKey this key, value' = v\<rparr>)"
  by (cases "openDbPromise this") (simp_all add: IndexedDbStorage_set_def setWithTransaction_Inr)

lemma IndexedDbStorage_delete_Inr:
  "fst (IndexedDbStorage_delete this key ev store) = Inr u \<Longrightarrow>
     openDbPromise this = None \<and>
     snd (IndexedDbStorage_delete this key ev store) = store(createCompositeKey this key := None)"
  by (cases "openDbPromise this"; cases ev) (simp_all add: IndexedDbStorage_delete_def)

lemma is_string_updatedSignals:
  assumes "is_CustomSignals newSignals" and "is_CustomSignals storedSignals"
  shows "fmpred (\<lambda>k v. is_string v) (updatedSignals E newSignals storedSignals)"
proof (rule fmpredI)
  fix k v
  assume "fmlookup (updatedSignals E newSignals storedSignals) k = Some v"
  then have m: "merged_spec E newSignals storedSignals k = Some v"
    by (simp add: lookup_updatedSignals)
  then obtain w where w: "overlay_spec newSignals storedSignals k = Some w"
    by (auto simp: merged_spec_def split: option.splits)
  then have "fmlookup newSignals k = Some w \<or> fmlookup storedSignals k = Some w"
    by (auto simp: overlay_spec_def split: option.splits)
  with assms have "is_signal_value w"
    by (auto simp: is_CustomSignals_def fmpred_iff)
  with m w show "is_string v"
    by (cases w) (auto simp: merged_spec_def)
qed

lemma nullFiltered_spec_all_null:
  assumes "fmpred (\<lambda>k v. v = JNull) newSignals"
  shows "nullFiltered_spec newSignals fmempty = fmempty"
proof (rule fmap_ext)
  fix k
  show "fmlookup (nullFiltered_spec newSignals fmempty) k = fmlookup fmempty k"
    using fmpredD [OF assms, of k]
    by (cases "fmlookup newSignals k") (auto simp: nullFiltered_spec_def)
qed

lemma updatedSignals_all_null:
  assumes "fmpred (\<lambda>k v. v = JNull) newSignals"
  shows "updatedSignals E newSignals fmempty = fmempty"
proof -
  have "fmdom (updatedSignals E newSignals fmempty) = {||}"
    by (simp add: fmdom_updatedSignals nullFiltered_spec_all_null [OF assms])
  then show ?thesis
    by (metis fmrestrict_fset_dom fmrestrict_fset_null)
qed

lemma InMemoryStorage_call_absent:
  assumes "\<not> writes c key" and "InMemoryStorage_get storage key = JUndefined"
  shows "InMemoryStorage_get (InMemoryStorage_call E c storage) key = JUndefined"
proof (cases c)
  case (Get k)
  with assms show ?thesis by simp
next
  case (Set k v)
  with assms show ?thesis
    by (simp add: InMemoryStorage_get_def InMemoryStorage_set_def property_def key_string_inj)
next
  case (Delete k)
  with assms show ?thesis
    by (simp add: InMemoryStorage_get_def InMemoryStorage_delete_def property_def)
next
  case (SetCustomSignals customSignals)
  with assms have "key_string key \<noteq> ''custom_signals''"
    using key_string_inj [of key custom_signals] by simp
  with assms SetCustomSignals show ?thesis
    by (simp add: InMemoryStorage_get_def InMemoryStorage_setCustomSignals_cases property_def)
qed

lemma InMemoryStorage_calls_absent:
  "\<forall>c\<in>set calls. \<not> writes c key \<Longrightarrow> InMemoryStorage_get storage key = JUndefined \<Longrightarrow>
     InMemoryStorage_get (fold (InMemoryStorage_call E) calls storage) key = JUndefined"
proof (induction calls arbitrary: storage)
  case Nil
  then show ?case by simp
next
  case (Cons c calls)
  then show ?case by (simp add: InMemoryStorage_call_absent)
qed

lemma IndexedDbStorage_setCustomSignals_frame:
  assumes "key \<noteq> custom_signals"
  shows "snd (IndexedDbStorage_setCustomSignals this E customSignals ev ev' store)
           (createCompositeKey this key) = store (createCompositeKey this key)"
proof (cases "openDbPromise this")
  case (Some e)
  then show ?thesis by (simp add: IndexedDbStorage_setCustomSignals_def)
next
  case None
  show ?thesis
  proof (cases "getWithTransaction this custom_signals ev store")
    case (Inl e)
    with None show ?thesis by (simp add: IndexedDbStorage_setCustomSignals_def)
  next
    case (Inr stored)
    from assms show ?thesis
      by (cases ev')
        (simp_all add: IndexedDbStorage_setCustomSignals_cases [OF None Inr]
          setWithTransaction_cases createCompositeKey_key_inj)
  qed
qed

lemma IndexedDbStorage_call_absent:
  assumes "\<not> writes (fst c) key" and "store (createCompositeKey this key) = None"
  shows "IndexedDbStorage_call this E c store (createCompositeKey this key) = None"
proof -
  obtain op ev ev' where c: "c = (op, ev, ev')" by (cases c) auto
  show ?thesis
  proof (cases op)
    case (Get k)
    with c assms show ?thesis by simp
  next
    case (Set k v)
    with c assms show ?thesis
      by (cases "openDbPromise this"; cases ev)
        (simp_all add: IndexedDbStorage_set_def setWithTransaction_cases createCompositeKey_key_inj)
  next
    case (Delete k)
    with c assms show ?thesis
      by (cases "openDbPromise this"; cases ev) (simp_all add: IndexedDbStorage_delete_def)
  next
    case (SetCustomSignals customSignals)
    with c assms show ?thesis
      by (simp add: IndexedDbStorage_setCustomSignals_frame)
  qed
qed

lemma IndexedDbStorage_calls_absent:
  "\<forall>c\<in>set calls. \<not> writes (fst c) key \<Longrightarrow> store (createCompositeKey this key) = None \<Longrightarrow>
     fold (IndexedDbStorage_call this E) calls store (createCompositeKey this key) = None"
proof (induction calls arbitrary: store)
  case Nil
  then show ?case by simp
next
  case (Cons c calls)
  then show ?case by (simp add: IndexedDbStorage_call_absent)
qed

subsection \<open>Facts about composite keys\<close>

lemma split_at_first:
  "c \<notin> set a \<Longrightarrow> c \<notin> set a' \<Longrightarrow> a @ c # r = a' @ c # r' \<Longrightarrow> a = a' \<and> r = r'"
proof (induction a arbitrary: a')
  case Nil
  then show ?case by (cases a') auto
next
  case (Cons x xs)
  then show ?case by (cases a') auto
qed

lemma split_at_last:
  assumes "c \<notin> set b" "c \<notin> set b'" "r @ c # b = r' @ c # b'"
  shows "r = r' \<and> b = b'"
proof -
  from assms(3) have "rev (r @ c # b) = rev (r' @ c # b')" by simp
  then have "rev b @ c # rev r = rev b' @ c # rev r'" by simp
  with assms(1,2) have "rev b = rev b' \<and> rev r = rev r'"
    by (intro split_at_first) simp_all
  then show ?thesis by simp
qed

lemma comma_not_in_key_string: "CHR '','' \<notin> set (key_string k)"
  by (cases k) simp_all

subsection \<open>The claims\<close>

text \<open>
  C1. mergeCustomSignals computes the map that has, for every key, the value of the new
  signals overlaid on the stored ones, without the entries whose value is null and with
  every number replaced by its string, and returns that map (unless it has more entries
  than the limit, when the limit error is raised instead). Merging stored
  \<^verbatim>\<open>{a: "1", b: "2"}\<close> with new \<^verbatim>\<open>{b: null, c: 3}\<close> yields \<^verbatim>\<open>{a: "1", c: "3"}\<close>.
\<close>

theorem mergeCustomSignals_result:
  "(\<exists>m. (\<forall>k. fmlookup m k = merged_spec E newSignals storedSignals k) \<and>
        mergeCustomSignals E newSignals storedSignals =
          (if RC_CUSTOM_SIGNAL_MAX_ALLOWED_SIGNALS E < fcard (fmdom m)
           then Inl (CustomSignalLimitExceeded E) else Inr m)) \<and>
   mergeCustomSignals example_env
     (fmupd ''b'' JNull (fmupd ''c'' (JNum 3) fmempty))
     (fmupd ''a'' (JStr ''1'') (fmupd ''b'' (JStr ''2'') fmempty))
   = Inr (fmupd ''a'' (JStr ''1'') (fmupd ''c'' (JStr ''3'') fmempty))"
proof (rule conjI)
  let ?m = "updatedSignals E newSignals storedSignals"
  have "\<forall>k. fmlookup ?m k = merged_spec E newSignals storedSignals k"
    by (simp add: lookup_updatedSignals)
  moreover have "mergeCustomSignals E newSignals storedSignals =
      (if RC_CUSTOM_SIGNAL_MAX_ALLOWED_SIGNALS E < fcard (fmdom ?m)
       then Inl (CustomSignalLimitExceeded E) else Inr ?m)"
    by (simp add: mergeCustomSignals_cases fmdom_updatedSignals)
  ultimately show "\<exists>m. (\<forall>k. fmlookup m k = merged_spec E newSignals storedSignals k) \<and>
      mergeCustomSignals E newSignals storedSignals =
        (if RC_CUSTOM_SIGNAL_MAX_ALLOWED_SIGNALS E < fcard (fmdom m)
         then Inl (CustomSignalLimitExceeded E) else Inr m)"
    by blast
next
  show "mergeCustomSignals example_env
     (fmupd ''b'' JNull (fmupd ''c'' (JNum 3) fmempty))
     (fmupd ''a'' (JStr ''1'') (fmupd ''b'' (JStr ''2'') fmempty))
   = Inr (fmupd ''a'' (JStr ''1'') (fmupd ''c'' (JStr ''3'') fmempty))"
    by (rule example_merge)
qed

text \<open>
  At the example, the general statement gives the entries of the result one by one: the
  number under \<open>c\<close> is stored as a string and \<open>b\<close>, set to null, is gone.
\<close>

theorem mergeCustomSignals_result_witness:
  "merged_spec example_env example_new example_stored ''a'' = Some (JStr ''1'') \<and>
   merged_spec example_env example_new example_stored ''b'' = None \<and>
   merged_spec example_env example_new example_stored ''c'' = Some (JStr ''3'') \<and>
   mergeCustomSignals example_env example_new example_stored = Inr example_merged"
proof -
  from mergeCustomSignals_result [of example_env example_new example_stored]
  obtain m where l: "\<forall>k. fmlookup m k = merged_spec example_env example_new example_stored k"
    and e: "mergeCustomSignals example_env example_new example_stored =
      (if RC_CUSTOM_SIGNAL_MAX_ALLOWED_SIGNALS example_env < fcard (fmdom m)
       then Inl (CustomSignalLimitExceeded example_env) else Inr m)"
    by blast
  have v: "mergeCustomSignals example_env example_new example_stored = Inr example_merged"
    by code_simp
  from e v have "m = example_merged"
    by (simp split: if_splits)
  with l have "\<forall>k. merged_spec example_env example_new example_stored k = fmlookup example_merged k"
    by simp
  with v show ?thesis
    by (simp add: example_merged_def)
qed

text \<open>
  C2. mergeCustomSignals fails exactly when the merged, null-filtered signals have more
  entries than the maximum allowed, and the error is then CustomSignalLimitExceeded;
  with exactly the maximum it succeeds. The same holds of setCustomSignals on the
  volatile backend, and on the persistent backend once the stored signals have been read
  (there a write that the medium refuses fails with the write error, not with this one).
\<close>

theorem limit_error_iff_count_exceeds:
  "((\<exists>e. mergeCustomSignals E newSignals storedSignals = Inl e) \<longleftrightarrow>
      RC_CUSTOM_SIGNAL_MAX_ALLOWED_SIGNALS E < fcard (fmdom (nullFiltered_spec newSignals storedSignals))) \<and>
   (mergeCustomSignals E newSignals storedSignals = Inl (CustomSignalLimitExceeded E) \<longleftrightarrow>
      RC_CUSTOM_SIGNAL_MAX_ALLOWED_SIGNALS E < fcard (fmdom (nullFiltered_spec newSignals storedSignals))) \<and>
   (fcard (fmdom (nullFiltered_spec newSignals storedSignals)) = RC_CUSTOM_SIGNAL_MAX_ALLOWED_SIGNALS E \<longrightarrow>
      (\<exists>m. mergeCustomSignals E newSignals storedSignals = Inr m)) \<and>
   ((\<exists>e. fst (InMemoryStorage_setCustomSignals E storage newSignals) = Inl e) \<longleftrightarrow>
      RC_CUSTOM_SIGNAL_MAX_ALLOWED_SIGNALS E <
        fcard (fmdom (nullFiltered_spec newSignals
                 (storedOrEmpty E (InMemoryStorage_getCustomSignals storage))))) \<and>
   (fst (InMemoryStorage_setCustomSignals E storage newSignals) = Inl (CustomSignalLimitExceeded E) \<longleftrightarrow>
      RC_CUSTOM_SIGNAL_MAX_ALLOWED_SIGNALS E <
        fcard (fmdom (nullFiltered_spec newSignals
                 (storedOrEmpty E (InMemoryStorage_getCustomSignals storage))))) \<and>
   (IndexedDbStorage_getCustomSignals this ev_get store = Inr stored \<longrightarrow>
      ((\<exists>d. fst (IndexedDbStorage_setCustomSignals this E newSignals ev_get ev_put store) =
          Inl (FirebaseError CUSTOM_SIGNAL_MAX_ALLOWED_SIGNALS d)) \<longleftrightarrow>
        RC_CUSTOM_SIGNAL_MAX_ALLOWED_SIGNALS E <
          fcard (fmdom (nullFiltered_spec newSignals (storedOrEmpty E stored)))) \<and>
      (fst (IndexedDbStorage_setCustomSignals this E newSignals ev_get ev_put store) =
          Inl (CustomSignalLimitExceeded E) \<longleftrightarrow>
        RC_CUSTOM_SIGNAL_MAX_ALLOWED_SIGNALS E <
          fcard (fmdom (nullFiltered_spec newSignals (storedOrEmpty E stored)))) \<and>
      (fcard (fmdom (nullFiltered_spec newSignals (storedOrEmpty E stored))) =
          RC_CUSTOM_SIGNAL_MAX_ALLOWED_SIGNALS E \<longrightarrow>
        (\<exists>r. fst (IndexedDbStorage_setCustomSignals this E newSignals ev_get onsuccess store) =
          Inr r)))"
proof (intro conjI impI)
  show "(\<exists>e. mergeCustomSignals E newSignals storedSignals = Inl e) \<longleftrightarrow>
      RC_CUSTOM_SIGNAL_MAX_ALLOWED_SIGNALS E < fcard (fmdom (nullFiltered_spec newSignals storedSignals))"
    by (simp add: mergeCustomSignals_cases)
  show "mergeCustomSignals E newSignals storedSignals = Inl (CustomSignalLimitExceeded E) \<longleftrightarrow>
      RC_CUSTOM_SIGNAL_MAX_ALLOWED_SIGNALS E < fcard (fmdom (nullFiltered_spec newSignals storedSignals))"
    by (simp add: mergeCustomSignals_cases)
  show "\<exists>m. mergeCustomSignals E newSignals storedSignals = Inr m"
    if "fcard (fmdom (nullFiltered_spec newSignals storedSignals)) = RC_CUSTOM_SIGNAL_MAX_ALLOWED_SIGNALS E"
    using that by (simp add: mergeCustomSignals_cases)
  show "(\<exists>e. fst (InMemoryStorage_setCustomSignals E storage newSignals) = Inl e) \<longleftrightarrow>
      RC_CUSTOM_SIGNAL_MAX_ALLOWED_SIGNALS E <
        fcard (fmdom (nullFiltered_spec newSignals
                 (storedOrEmpty E (InMemoryStorage_getCustomSignals storage))))"
    by (simp add: InMemoryStorage_setCustomSignals_cases InMemoryStorage_getCustomSignals_def
        InMemoryStorage_get_def)
  show "fst (InMemoryStorage_setCustomSignals E storage newSignals) = Inl (CustomSignalLimitExceeded E) \<longleftrightarrow>
      RC_CUSTOM_SIGNAL_MAX_ALLOWED_SIGNALS E <
        fcard (fmdom (nullFiltered_spec newSignals
                 (storedOrEmpty E (InMemoryStorage_getCustomSignals storage))))"
    by (simp add: InMemoryStorage_setCustomSignals_cases InMemoryStorage_getCustomSignals_def
        InMemoryStorage_get_def)
next
  assume "IndexedDbStorage_getCustomSignals this ev_get store = Inr stored"
  then have "openDbPromise this = None"
    and "getWithTransaction this custom_signals ev_get store = Inr stored"
    by (simp_all add: IndexedDbStorage_getCustomSignals_def IndexedDbStorage_get_Inr)
  note c = IndexedDbStorage_setCustomSignals_cases [OF this]
  show "(\<exists>d. fst (IndexedDbStorage_setCustomSignals this E newSignals ev_get ev_put store) =
          Inl (FirebaseError CUSTOM_SIGNAL_MAX_ALLOWED_SIGNALS d)) \<longleftrightarrow>
        RC_CUSTOM_SIGNAL_MAX_ALLOWED_SIGNALS E <
          fcard (fmdom (nullFiltered_spec newSignals (storedOrEmpty E stored)))"
    by (cases ev_put) (auto simp: c setWithTransaction_cases CustomSignalLimitExceeded_def)
  show "fst (IndexedDbStorage_setCustomSignals this E newSignals ev_get ev_put store) =
          Inl (CustomSignalLimitExceeded E) \<longleftrightarrow>
        RC_CUSTOM_SIGNAL_MAX_ALLOWED_SIGNALS E <
          fcard (fmdom (nullFiltered_spec newSignals (storedOrEmpty E stored)))"
    by (cases ev_put) (auto simp: c setWithTransaction_cases CustomSignalLimitExceeded_def)
  show "\<exists>r. fst (IndexedDbStorage_setCustomSignals this E newSignals ev_get onsuccess store) = Inr r"
    if "fcard (fmdom (nullFiltered_spec newSignals (storedOrEmpty E stored))) =
          RC_CUSTOM_SIGNAL_MAX_ALLOWED_SIGNALS E"
    using that by (simp add: c setWithTransaction_cases)
qed

text \<open>
  With a limit of two: the example's merge has exactly two entries and succeeds; a third
  signal on top of the two stored ones is refused, by the merge and by both backends.
\<close>

theorem limit_error_iff_count_exceeds_witness:
  "fcard (fmdom (nullFiltered_spec example_new example_stored)) =
     RC_CUSTOM_SIGNAL_MAX_ALLOWED_SIGNALS small_env \<and>
   (\<exists>m. mergeCustomSignals small_env example_new example_stored = Inr m) \<and>
   mergeCustomSignals small_env example_three example_stored = Inl (CustomSignalLimitExceeded small_env) \<and>
   fst (InMemoryStorage_setCustomSignals small_env example_memory example_three) =
     Inl (CustomSignalLimitExceeded small_env) \<and>
   IndexedDbStorage_getCustomSignals example_storage onsuccess example_store =
     Inr (JObj example_stored) \<and>
   fst (IndexedDbStorage_setCustomSignals example_storage small_env example_three
          onsuccess onsuccess example_store) = Inl (CustomSignalLimitExceeded small_env) \<and>
   (\<exists>r. fst (IndexedDbStorage_setCustomSignals example_storage small_env example_new
          onsuccess onsuccess example_store) = Inr r)"
proof -
  have two: "fcard (fmdom (nullFiltered_spec example_new example_stored)) =
      RC_CUSTOM_SIGNAL_MAX_ALLOWED_SIGNALS small_env"
    by code_simp
  have three: "RC_CUSTOM_SIGNAL_MAX_ALLOWED_SIGNALS small_env <
      fcard (fmdom (nullFiltered_spec example_three example_stored))"
    by code_simp
  have mem: "InMemoryStorage_getCustomSignals example_memory = JObj example_stored"
    by code_simp
  have db: "IndexedDbStorage_getCustomSignals example_storage onsuccess example_store =
      Inr (JObj example_stored)"
    by code_simp
  note A = limit_error_iff_count_exceeds [where E = small_env and newSignals = example_new
      and storedSignals = example_stored and this = example_storage and ev_get = onsuccess
      and store = example_store and stored = "JObj example_stored"]
  note B = limit_error_iff_count_exceeds [where E = small_env and newSignals = example_three
      and storedSignals = example_stored and storage = example_memory
      and this = example_storage and ev_get = onsuccess and ev_put = onsuccess
      and store = example_store and stored = "JObj example_stored"]
  from A two have 1: "\<exists>m. mergeCustomSignals small_env example_new example_stored = Inr m"
    by blast
  from A db two
  have 2: "\<exists>r. fst (IndexedDbStorage_setCustomSignals example_storage small_env example_new
          onsuccess onsuccess example_store) = Inr r"
    by (simp add: storedOrEmpty_simps)
  from B three
  have 3: "mergeCustomSignals small_env example_three example_stored = Inl (CustomSignalLimitExceeded small_env)"
    by blast
  from B three mem
  have 4: "fst (InMemoryStorage_setCustomSignals small_env example_memory example_three) =
     Inl (CustomSignalLimitExceeded small_env)"
    by (simp add: storedOrEmpty_simps)
  from B three db
  have 5: "fst (IndexedDbStorage_setCustomSignals example_storage small_env example_three
          onsuccess onsuccess example_store) = Inl (CustomSignalLimitExceeded small_env)"
    by (simp add: storedOrEmpty_simps)
  from two 1 3 4 db 5 2 show ?thesis
    by blast
qed

text \<open>
  C3. When the merge of the new signals with the stored ones has more entries than the
  maximum, setCustomSignals fails with the limit error and the storage is exactly what it
  was, custom signals and every other field: nothing is written. This holds on the
  volatile backend and, once the stored signals have been read, on the persistent one,
  however the write request would have ended.
\<close>

theorem setCustomSignals_limit_no_write:
  "(RC_CUSTOM_SIGNAL_MAX_ALLOWED_SIGNALS E <
      fcard (fmdom (nullFiltered_spec newSignals
               (storedOrEmpty E (InMemoryStorage_getCustomSignals storage)))) \<longrightarrow>
    InMemoryStorage_setCustomSignals E storage newSignals = (Inl (CustomSignalLimitExceeded E), storage)) \<and>
   (IndexedDbStorage_getCustomSignals this ev_get store = Inr stored \<and>
    RC_CUSTOM_SIGNAL_MAX_ALLOWED_SIGNALS E <
      fcard (fmdom (nullFiltered_spec newSignals (storedOrEmpty E stored))) \<longrightarrow>
    IndexedDbStorage_setCustomSignals this E newSignals ev_get ev_put store =
      (Inl (CustomSignalLimitExceeded E), store))"
proof (intro conjI impI)
  assume "RC_CUSTOM_SIGNAL_MAX_ALLOWED_SIGNALS E <
      fcard (fmdom (nullFiltered_spec newSignals
               (storedOrEmpty E (InMemoryStorage_getCustomSignals storage))))"
  then show "InMemoryStorage_setCustomSignals E storage newSignals = (Inl (CustomSignalLimitExceeded E), storage)"
    by (simp add: InMemoryStorage_setCustomSignals_cases InMemoryStorage_getCustomSignals_def
        InMemoryStorage_get_def)
next
  assume a: "IndexedDbStorage_getCustomSignals this ev_get store = Inr stored \<and>
    RC_CUSTOM_SIGNAL_MAX_ALLOWED_SIGNALS E <
      fcard (fmdom (nullFiltered_spec newSignals (storedOrEmpty E stored)))"
  then have "openDbPromise this = None"
    and "getWithTransaction this custom_signals ev_get store = Inr stored"
    by (simp_all add: IndexedDbStorage_getCustomSignals_def IndexedDbStorage_get_Inr)
  from IndexedDbStorage_setCustomSignals_cases [OF this] a
  show "IndexedDbStorage_setCustomSignals this E newSignals ev_get ev_put store =
      (Inl (CustomSignalLimitExceeded E), store)"
    by simp
qed

text \<open>
  With a limit of two and two signals stored, a third one is refused and each store
  still holds what it held.
\<close>

theorem setCustomSignals_limit_no_write_witness:
  "RC_CUSTOM_SIGNAL_MAX_ALLOWED_SIGNALS small_env <
     fcard (fmdom (nullFiltered_spec example_three
              (storedOrEmpty small_env (InMemoryStorage_getCustomSignals example_memory)))) \<and>
   InMemoryStorage_setCustomSignals small_env example_memory example_three =
     (Inl (CustomSignalLimitExceeded small_env), example_memory) \<and>
   IndexedDbStorage_getCustomSignals example_storage onsuccess example_store =
     Inr (JObj example_stored) \<and>
   IndexedDbStorage_setCustomSignals example_storage small_env example_three
     onsuccess onsuccess example_store = (Inl (CustomSignalLimitExceeded small_env), example_store)"
proof -
  have mem: "RC_CUSTOM_SIGNAL_MAX_ALLOWED_SIGNALS small_env <
     fcard (fmdom (nullFiltered_spec example_three
              (storedOrEmpty small_env (InMemoryStorage_getCustomSignals example_memory))))"
    by code_simp
  have db: "IndexedDbStorage_getCustomSignals example_storage onsuccess example_store =
      Inr (JObj example_stored)"
    by code_simp
  have three: "RC_CUSTOM_SIGNAL_MAX_ALLOWED_SIGNALS small_env <
     fcard (fmdom (nullFiltered_spec example_three (storedOrEmpty small_env (JObj example_stored))))"
    by code_simp
  note A = setCustomSignals_limit_no_write [where E = small_env and newSignals = example_three
      and storage = example_memory and this = example_storage and ev_get = onsuccess
      and ev_put = onsuccess and store = example_store and stored = "JObj example_stored"]
  from A mem have 1: "InMemoryStorage_setCustomSignals small_env example_memory example_three =
     (Inl (CustomSignalLimitExceeded small_env), example_memory)"
    by blast
  from A db three have 2: "IndexedDbStorage_setCustomSignals example_storage small_env example_three
     onsuccess onsuccess example_store = (Inl (CustomSignalLimitExceeded small_env), example_store)"
    by blast
  from mem 1 db 2 show ?thesis
    by blast
qed

text \<open>
  C4 as stated fails: an app id \<open>a,b\<close> with app name \<open>c\<close> and an app id \<open>a\<close> with app
  name \<open>b,c\<close> are different tuples with the same composite key.
\<close>

theorem createCompositeKey_collision:
  "(''a,b'', ''c'', ''d'', active_config) \<noteq> (''a'', ''b,c'', ''d'', active_config) \<and>
   createCompositeKey
     \<lparr>appId = ''a,b'', appName = ''c'', namespace = ''d'', openDbPromise = None\<rparr> active_config =
   createCompositeKey
     \<lparr>appId = ''a'', appName = ''b,c'', namespace = ''d'', openDbPromise = None\<rparr> active_config"
  by (simp add: createCompositeKey_def)

text \<open>
  C4, amended. createCompositeKey is injective on the tuples whose app id and app name
  do not contain the delimiter, the comma (the namespace may contain it; the field name is
  one of the closed enumeration): two such tuples have the same composite key exactly
  when they have the same app id, app name, namespace and field name.
\<close>

theorem createCompositeKey_injective:
  assumes "CHR '','' \<notin> set (appId s)" and "CHR '','' \<notin> set (appName s)"
    and "CHR '','' \<notin> set (appId s')" and "CHR '','' \<notin> set (appName s')"
  shows "createCompositeKey s key = createCompositeKey s' key' \<longleftrightarrow>
     appId s = appId s' \<and> appName s = appName s' \<and> namespace s = namespace s' \<and> key = key'"
proof
  assume "createCompositeKey s key = createCompositeKey s' key'"
  then have e: "appId s @ CHR '','' # (appName s @ CHR '','' # (namespace s @ CHR '','' # key_string key)) =
     appId s' @ CHR '','' # (appName s' @ CHR '','' # (namespace s' @ CHR '','' # key_string key'))"
    by (simp add: createCompositeKey_def)
  from split_at_first [OF assms(1) assms(3) e]
  have 1: "appId s = appId s'"
    and e2: "appName s @ CHR '','' # (namespace s @ CHR '','' # key_string key) =
      appName s' @ CHR '','' # (namespace s' @ CHR '','' # key_string key')"
    by simp_all
  from split_at_first [OF assms(2) assms(4) e2]
  have 2: "appName s = appName s'"
    and e3: "namespace s @ CHR '','' # key_string key = namespace s' @ CHR '','' # key_string key'"
    by simp_all
  from split_at_last [OF comma_not_in_key_string comma_not_in_key_string e3]
  have "namespace s = namespace s'" and "key_string key = key_string key'"
    by simp_all
  with 1 2
  show "appId s = appId s' \<and> appName s = appName s' \<and> namespace s = namespace s' \<and> key = key'"
    by (simp add: key_string_inj)
next
  assume "appId s = appId s' \<and> appName s = appName s' \<and> namespace s = namespace s' \<and> key = key'"
  then show "createCompositeKey s key = createCompositeKey s' key'"
    by (simp add: createCompositeKey_def)
qed

text \<open>
  Two instances of one app that differ in the namespace, one of them with a comma in
  it, have different keys for every pair of fields, here for the same field.
\<close>

theorem createCompositeKey_injective_witness:
  "CHR '','' \<notin> set (appId example_storage) \<and> CHR '','' \<notin> set (appName example_storage) \<and>
   CHR '','' \<notin> set (appId other_storage) \<and> CHR '','' \<notin> set (appName other_storage) \<and>
   createCompositeKey example_storage settings \<noteq> createCompositeKey other_storage settings"
proof -
  have 1: "CHR '','' \<notin> set (appId example_storage)"
    and 2: "CHR '','' \<notin> set (appName example_storage)"
    and 3: "CHR '','' \<notin> set (appId other_storage)"
    and 4: "CHR '','' \<notin> set (appName other_storage)"
    by (simp_all add: example_storage_def other_storage_def)
  have "namespace example_storage \<noteq> namespace other_storage"
    by (simp add: example_storage_def other_storage_def)
  with createCompositeKey_injective [OF 1 2 3 4, of settings settings]
  have "createCompositeKey example_storage settings \<noteq> createCompositeKey other_storage settings"
    by simp
  with 1 2 3 4 show ?thesis
    by simp
qed

text \<open>
  C5. A successful setCustomSignals returns the merged signals it persisted: what it
  returns is the result of mergeCustomSignals on the new signals and the previously
  stored signals (the empty map when none are stored), and a getCustomSignals right after
  it returns the same map. It succeeds whenever that merge does (on the persistent
  backend, when its two requests succeed).
\<close>

theorem setCustomSignals_returns_persisted:
  "(fst (InMemoryStorage_setCustomSignals E storage newSignals) = Inr r \<longrightarrow>
      (\<exists>m. mergeCustomSignals E newSignals
              (storedOrEmpty E (InMemoryStorage_getCustomSignals storage)) = Inr m \<and>
           r = JObj m \<and>
           InMemoryStorage_getCustomSignals
             (snd (InMemoryStorage_setCustomSignals E storage newSignals)) = JObj m)) \<and>
   (mergeCustomSignals E newSignals
      (storedOrEmpty E (InMemoryStorage_getCustomSignals storage)) = Inr m \<longrightarrow>
      fst (InMemoryStorage_setCustomSignals E storage newSignals) = Inr (JObj m)) \<and>
   (fst (IndexedDbStorage_setCustomSignals this E newSignals ev_get ev_put store) = Inr r \<longrightarrow>
      (\<exists>stored m.
           IndexedDbStorage_getCustomSignals this ev_get store = Inr stored \<and>
           mergeCustomSignals E newSignals (storedOrEmpty E stored) = Inr m \<and>
           r = JObj m \<and>
           IndexedDbStorage_getCustomSignals this onsuccess
             (snd (IndexedDbStorage_setCustomSignals this E newSignals ev_get ev_put store)) =
               Inr (JObj m))) \<and>
   (IndexedDbStorage_getCustomSignals this ev_get store = Inr stored \<and>
    mergeCustomSignals E newSignals (storedOrEmpty E stored) = Inr m \<longrightarrow>
      fst (IndexedDbStorage_setCustomSignals this E newSignals ev_get onsuccess store) =
        Inr (JObj m)) \<and>
   storedOrEmpty E (JObj s) = s \<and> storedOrEmpty E JUndefined = fmempty"
proof (intro conjI impI; (elim conjE)?)
  assume "fst (InMemoryStorage_setCustomSignals E storage newSignals) = Inr r"
  then show "\<exists>m. mergeCustomSignals E newSignals
              (storedOrEmpty E (InMemoryStorage_getCustomSignals storage)) = Inr m \<and>
           r = JObj m \<and>
           InMemoryStorage_getCustomSignals
             (snd (InMemoryStorage_setCustomSignals E storage newSignals)) = JObj m"
    by (auto simp: InMemoryStorage_setCustomSignals_cases mergeCustomSignals_cases
        InMemoryStorage_getCustomSignals_def InMemoryStorage_get_def property_def
        split: if_splits)
next
  assume "mergeCustomSignals E newSignals
      (storedOrEmpty E (InMemoryStorage_getCustomSignals storage)) = Inr m"
  then show "fst (InMemoryStorage_setCustomSignals E storage newSignals) = Inr (JObj m)"
    by (auto simp: InMemoryStorage_setCustomSignals_cases mergeCustomSignals_cases
        InMemoryStorage_getCustomSignals_def InMemoryStorage_get_def
        split: if_splits)
next
  assume a: "fst (IndexedDbStorage_setCustomSignals this E newSignals ev_get ev_put store) = Inr r"
  then have o: "openDbPromise this = None"
    by (cases "openDbPromise this") (simp_all add: IndexedDbStorage_setCustomSignals_def)
  from a o obtain stored where g: "getWithTransaction this custom_signals ev_get store = Inr stored"
    by (cases "getWithTransaction this custom_signals ev_get store")
      (simp_all add: IndexedDbStorage_setCustomSignals_def)
  have "IndexedDbStorage_getCustomSignals this ev_get store = Inr stored"
    using o g by (simp add: IndexedDbStorage_getCustomSignals_def IndexedDbStorage_get_def)
  moreover from a have "mergeCustomSignals E newSignals (storedOrEmpty E stored) =
      Inr (updatedSignals E newSignals (storedOrEmpty E stored)) \<and>
    r = JObj (updatedSignals E newSignals (storedOrEmpty E stored)) \<and>
    IndexedDbStorage_getCustomSignals this onsuccess
      (snd (IndexedDbStorage_setCustomSignals this E newSignals ev_get ev_put store)) =
        Inr (JObj (updatedSignals E newSignals (storedOrEmpty E stored)))"
    by (cases ev_put)
      (auto simp: IndexedDbStorage_setCustomSignals_cases [OF o g] setWithTransaction_cases
        mergeCustomSignals_cases IndexedDbStorage_getCustomSignals_def IndexedDbStorage_get_def o
        getWithTransaction_onsuccess split: if_splits)
  ultimately show "\<exists>stored m.
           IndexedDbStorage_getCustomSignals this ev_get store = Inr stored \<and>
           mergeCustomSignals E newSignals (storedOrEmpty E stored) = Inr m \<and>
           r = JObj m \<and>
           IndexedDbStorage_getCustomSignals this onsuccess
             (snd (IndexedDbStorage_setCustomSignals this E newSignals ev_get ev_put store)) =
               Inr (JObj m)"
    by blast
next
  assume a: "IndexedDbStorage_getCustomSignals this ev_get store = Inr stored"
    "mergeCustomSignals E newSignals (storedOrEmpty E stored) = Inr m"
  from a(1) have o: "openDbPromise this = None"
    and g: "getWithTransaction this custom_signals ev_get store = Inr stored"
    by (simp_all add: IndexedDbStorage_getCustomSignals_def IndexedDbStorage_get_Inr)
  from a(2) show "fst (IndexedDbStorage_setCustomSignals this E newSignals ev_get onsuccess store) =
        Inr (JObj m)"
    by (auto simp: IndexedDbStorage_setCustomSignals_cases [OF o g] setWithTransaction_cases
        mergeCustomSignals_cases split: if_splits)
next
  show "storedOrEmpty E (JObj s) = s" by (simp add: storedOrEmpty_simps)
  show "storedOrEmpty E JUndefined = fmempty" by (simp add: storedOrEmpty_simps)
qed

text \<open>The example of the specification, on a store of each backend.\<close>

theorem setCustomSignals_returns_persisted_witness:
  "fst (InMemoryStorage_setCustomSignals example_env example_memory example_new) =
     Inr (JObj example_merged) \<and>
   mergeCustomSignals example_env example_new
     (storedOrEmpty example_env (InMemoryStorage_getCustomSignals example_memory)) =
     Inr example_merged \<and>
   InMemoryStorage_getCustomSignals
     (snd (InMemoryStorage_setCustomSignals example_env example_memory example_new)) =
     JObj example_merged \<and>
   fst (IndexedDbStorage_setCustomSignals example_storage example_env example_new
          onsuccess onsuccess example_store) = Inr (JObj example_merged) \<and>
   IndexedDbStorage_getCustomSignals example_storage onsuccess example_store =
     Inr (JObj example_stored) \<and>
   mergeCustomSignals example_env example_new (storedOrEmpty example_env (JObj example_stored)) =
     Inr example_merged \<and>
   IndexedDbStorage_getCustomSignals example_storage onsuccess
     (snd (IndexedDbStorage_setCustomSignals example_storage example_env example_new
             onsuccess onsuccess example_store)) = Inr (JObj example_merged)"
proof -
  have mem: "mergeCustomSignals example_env example_new
     (storedOrEmpty example_env (InMemoryStorage_getCustomSignals example_memory)) =
     Inr example_merged"
    by code_simp
  have db: "IndexedDbStorage_getCustomSignals example_storage onsuccess example_store =
     Inr (JObj example_stored)"
    by code_simp
  have mrg: "mergeCustomSignals example_env example_new
      (storedOrEmpty example_env (JObj example_stored)) = Inr example_merged"
    by code_simp
  note A = setCustomSignals_returns_persisted [where E = example_env
      and newSignals = example_new and storage = example_memory and m = example_merged
      and r = "JObj example_merged" and this = example_storage and ev_get = onsuccess
      and ev_put = onsuccess and store = example_store and stored = "JObj example_stored"]
  from A mem
  have 1: "fst (InMemoryStorage_setCustomSignals example_env example_memory example_new) =
     Inr (JObj example_merged)"
    by blast
  with A mem
  have 2: "InMemoryStorage_getCustomSignals
     (snd (InMemoryStorage_setCustomSignals example_env example_memory example_new)) =
     JObj example_merged"
    by simp
  from A db mrg
  have 3: "fst (IndexedDbStorage_setCustomSignals example_storage example_env example_new
          onsuccess onsuccess example_store) = Inr (JObj example_merged)"
    by blast
  with A db mrg
  have 4: "IndexedDbStorage_getCustomSignals example_storage onsuccess
     (snd (IndexedDbStorage_setCustomSignals example_storage example_env example_new
             onsuccess onsuccess example_store)) = Inr (JObj example_merged)"
    by simp
  from 1 mem 2 3 db mrg 4 show ?thesis
    by blast
qed

text \<open>
  C6. On the volatile backend, set(F, V) followed by get(F) returns V, for every field F
  and every value V. On the persistent backend the set succeeds when the database is open
  and its request succeeds, and after a set that succeeded a get whose request succeeds
  returns V.
\<close>

theorem set_then_get:
  "InMemoryStorage_get (InMemoryStorage_set storage key v) key = v \<and>
   (openDbPromise this = None \<longrightarrow>
      fst (IndexedDbStorage_set this key v onsuccess store) = Inr ()) \<and>
   (fst (IndexedDbStorage_set this key v ev store) = Inr () \<longrightarrow>
      IndexedDbStorage_get this key onsuccess (snd (IndexedDbStorage_set this key v ev store)) =
        Inr v)"
proof (intro conjI impI)
  show "InMemoryStorage_get (InMemoryStorage_set storage key v) key = v"
    by (simp add: InMemoryStorage_get_def InMemoryStorage_set_def property_def)
  show "fst (IndexedDbStorage_set this key v onsuccess store) = Inr ()"
    if "openDbPromise this = None"
    using that by (simp add: IndexedDbStorage_set_def setWithTransaction_cases)
  show "IndexedDbStorage_get this key onsuccess (snd (IndexedDbStorage_set this key v ev store)) =
        Inr v"
    if "fst (IndexedDbStorage_set this key v ev store) = Inr ()"
    using IndexedDbStorage_set_Inr [OF that]
    by (simp add: IndexedDbStorage_get_def getWithTransaction_onsuccess)
qed

theorem set_then_get_witness:
  "InMemoryStorage_get (InMemoryStorage_set example_memory active_config_etag (JStr ''etag''))
     active_config_etag = JStr ''etag'' \<and>
   openDbPromise example_storage = None \<and>
   fst (IndexedDbStorage_set example_storage active_config_etag (JStr ''etag'') onsuccess
          example_store) = Inr () \<and>
   IndexedDbStorage_get example_storage active_config_etag onsuccess
     (snd (IndexedDbStorage_set example_storage active_config_etag (JStr ''etag'') onsuccess
             example_store)) = Inr (JStr ''etag'')"
proof -
  have o: "openDbPromise example_storage = None"
    by (simp add: example_storage_def)
  note A = set_then_get [where storage = example_memory and key = active_config_etag
      and v = "JStr ''etag''" and this = example_storage and ev = onsuccess
      and store = example_store]
  from A o
  have 1: "fst (IndexedDbStorage_set example_storage active_config_etag (JStr ''etag'') onsuccess
          example_store) = Inr ()"
    by blast
  with A
  have 2: "IndexedDbStorage_get example_storage active_config_etag onsuccess
     (snd (IndexedDbStorage_set example_storage active_config_etag (JStr ''etag'') onsuccess
             example_store)) = Inr (JStr ''etag'')"
    by blast
  from A o 1 2 show ?thesis
    by blast
qed

text \<open>
  C7. delete(F) followed by get(F) returns the absent outcome, \<^verbatim>\<open>undefined\<close>, whatever was
  stored under F: on the volatile backend always; on the persistent backend the delete
  succeeds when the database is open and its request succeeds, and after a delete that
  succeeded a get whose request succeeds returns the absent outcome.
\<close>

theorem delete_then_get:
  "InMemoryStorage_get (InMemoryStorage_delete storage key) key = JUndefined \<and>
   (openDbPromise this = None \<longrightarrow>
      fst (IndexedDbStorage_delete this key onsuccess store) = Inr ()) \<and>
   (fst (IndexedDbStorage_delete this key ev store) = Inr () \<longrightarrow>
      IndexedDbStorage_get this key onsuccess (snd (IndexedDbStorage_delete this key ev store)) =
        Inr JUndefined)"
proof (intro conjI impI)
  show "InMemoryStorage_get (InMemoryStorage_delete storage key) key = JUndefined"
    by (simp add: InMemoryStorage_get_def InMemoryStorage_delete_def property_def)
  show "fst (IndexedDbStorage_delete this key onsuccess store) = Inr ()"
    if "openDbPromise this = None"
    using that by (simp add: IndexedDbStorage_delete_def)
  show "IndexedDbStorage_get this key onsuccess (snd (IndexedDbStorage_delete this key ev store)) =
        Inr JUndefined"
    if "fst (IndexedDbStorage_delete this key ev store) = Inr ()"
    using IndexedDbStorage_delete_Inr [OF that]
    by (simp add: IndexedDbStorage_get_def getWithTransaction_onsuccess)
qed

text \<open>Deleting the stored custom signals of the example stores.\<close>

theorem delete_then_get_witness:
  "InMemoryStorage_get example_memory custom_signals = JObj example_stored \<and>
   InMemoryStorage_get (InMemoryStorage_delete example_memory custom_signals) custom_signals =
     JUndefined \<and>
   openDbPromise example_storage = None \<and>
   IndexedDbStorage_get example_storage custom_signals onsuccess example_store =
     Inr (JObj example_stored) \<and>
   fst (IndexedDbStorage_delete example_storage custom_signals onsuccess example_store) = Inr () \<and>
   IndexedDbStorage_get example_storage custom_signals onsuccess
     (snd (IndexedDbStorage_delete example_storage custom_signals onsuccess example_store)) =
     Inr JUndefined"
proof -
  have o: "openDbPromise example_storage = None"
    by (simp add: example_storage_def)
  have mem: "InMemoryStorage_get example_memory custom_signals = JObj example_stored"
    by code_simp
  have db: "IndexedDbStorage_get example_storage custom_signals onsuccess example_store =
     Inr (JObj example_stored)"
    by code_simp
  note A = delete_then_get [where storage = example_memory and key = custom_signals
      and this = example_storage and ev = onsuccess and store = example_store]
  from A o
  have 1: "fst (IndexedDbStorage_delete example_storage custom_signals onsuccess example_store) =
      Inr ()"
    by blast
  with A
  have 2: "IndexedDbStorage_get example_storage custom_signals onsuccess
     (snd (IndexedDbStorage_delete example_storage custom_signals onsuccess example_store)) =
     Inr JUndefined"
    by blast
  from A mem o db 1 2 show ?thesis
    by blast
qed

text \<open>
  C8. For a field that has never been written, get succeeds and returns the absent
  outcome, \<^verbatim>\<open>undefined\<close>, not an error. On the volatile backend: after any calls on a new
  instance none of which writes the field. On the persistent backend: when the database
  is open and holds no record of the field, after any calls on the instance none of
  which writes the field, a get whose request succeeds returns the absent outcome.
\<close>

theorem get_never_written:
  "((\<forall>c\<in>set calls. \<not> writes c key) \<longrightarrow>
      InMemoryStorage_get (fold (InMemoryStorage_call E) calls InMemoryStorage_new) key =
        JUndefined) \<and>
   (openDbPromise this = None \<and> store (createCompositeKey this key) = None \<and>
    (\<forall>c\<in>set dbcalls. \<not> writes (fst c) key) \<longrightarrow>
      IndexedDbStorage_get this key onsuccess (fold (IndexedDbStorage_call this E) dbcalls store) =
        Inr JUndefined)"
proof (intro conjI impI; (elim conjE)?)
  assume "\<forall>c\<in>set calls. \<not> writes c key"
  moreover have "InMemoryStorage_get InMemoryStorage_new key = JUndefined"
    by (simp add: InMemoryStorage_get_def InMemoryStorage_new_def property_def)
  ultimately show "InMemoryStorage_get (fold (InMemoryStorage_call E) calls InMemoryStorage_new) key =
        JUndefined"
    by (rule InMemoryStorage_calls_absent)
next
  assume o: "openDbPromise this = None"
    and a: "store (createCompositeKey this key) = None" "\<forall>c\<in>set dbcalls. \<not> writes (fst c) key"
  have "fold (IndexedDbStorage_call this E) dbcalls store (createCompositeKey this key) = None"
    using a(2) a(1) by (rule IndexedDbStorage_calls_absent)
  with o show "IndexedDbStorage_get this key onsuccess (fold (IndexedDbStorage_call this E) dbcalls store) =
        Inr JUndefined"
    by (simp add: IndexedDbStorage_get_def getWithTransaction_onsuccess)
qed

text \<open>Calls that write the ETag and the custom signals leave the settings absent.\<close>

theorem get_never_written_witness:
  "list_all (\<lambda>c. \<not> writes c settings) example_calls \<and>
   InMemoryStorage_get (fold (InMemoryStorage_call example_env) example_calls InMemoryStorage_new)
     settings = JUndefined \<and>
   openDbPromise example_storage = None \<and>
   example_store (createCompositeKey example_storage settings) = None \<and>
   list_all (\<lambda>c. \<not> writes (fst c) settings) example_dbcalls \<and>
   IndexedDbStorage_get example_storage settings onsuccess
     (fold (IndexedDbStorage_call example_storage example_env) example_dbcalls example_store) =
     Inr JUndefined"
proof -
  have c: "\<forall>c\<in>set example_calls. \<not> writes c settings"
    by (simp add: example_calls_def)
  have d: "\<forall>c\<in>set example_dbcalls. \<not> writes (fst c) settings"
    by (simp add: example_dbcalls_def)
  have o: "openDbPromise example_storage = None"
    by (simp add: example_storage_def)
  have n: "example_store (createCompositeKey example_storage settings) = None"
    by code_simp
  note A = get_never_written [where calls = example_calls and key = settings
      and E = example_env and this = example_storage and store = example_store
      and dbcalls = example_dbcalls]
  from A c
  have 1: "InMemoryStorage_get
     (fold (InMemoryStorage_call example_env) example_calls InMemoryStorage_new) settings =
     JUndefined"
    by blast
  from A o n d
  have 2: "IndexedDbStorage_get example_storage settings onsuccess
     (fold (IndexedDbStorage_call example_storage example_env) example_dbcalls example_store) =
     Inr JUndefined"
    by blast
  from c d 1 o n 2 show ?thesis
    by (simp add: list_all_iff)
qed

text \<open>
  C9. When the new and the stored signals are custom signals (every value a string, a
  number or null) and mergeCustomSignals succeeds, every value of the returned map is a
  string: none is null and none is a number. So what a successful setCustomSignals leaves
  under \<open>custom_signals\<close> is a map of strings, on both backends.
\<close>

theorem mergeCustomSignals_only_strings:
  "(is_CustomSignals newSignals \<and> is_CustomSignals storedSignals \<and>
    mergeCustomSignals E newSignals storedSignals = Inr m \<longrightarrow>
      fmpred (\<lambda>k v. is_string v) m \<and>
      (\<forall>k. fmlookup m k \<noteq> Some JNull) \<and> (\<forall>k n. fmlookup m k \<noteq> Some (JNum n))) \<and>
   (is_CustomSignals newSignals \<and>
    is_CustomSignals (storedOrEmpty E (InMemoryStorage_getCustomSignals storage)) \<and>
    fst (InMemoryStorage_setCustomSignals E storage newSignals) = Inr r \<longrightarrow>
      (\<exists>p. InMemoryStorage_getCustomSignals
             (snd (InMemoryStorage_setCustomSignals E storage newSignals)) = JObj p \<and>
           fmpred (\<lambda>k v. is_string v) p)) \<and>
   (is_CustomSignals newSignals \<and>
    IndexedDbStorage_getCustomSignals this ev_get store = Inr stored \<and>
    is_CustomSignals (storedOrEmpty E stored) \<and>
    fst (IndexedDbStorage_setCustomSignals this E newSignals ev_get ev_put store) = Inr r \<longrightarrow>
      (\<exists>p. IndexedDbStorage_getCustomSignals this onsuccess
             (snd (IndexedDbStorage_setCustomSignals this E newSignals ev_get ev_put store)) =
               Inr (JObj p) \<and>
           fmpred (\<lambda>k v. is_string v) p))"
proof (intro conjI impI; (elim conjE)?)
  assume a: "is_CustomSignals newSignals" "is_CustomSignals storedSignals"
    "mergeCustomSignals E newSignals storedSignals = Inr m"
  then have m: "m = updatedSignals E newSignals storedSignals"
    by (simp add: mergeCustomSignals_cases split: if_splits)
  with is_string_updatedSignals [OF a(1,2)] show s: "fmpred (\<lambda>k v. is_string v) m"
    by simp
  show "\<forall>k. fmlookup m k \<noteq> Some JNull"
    using fmpredD [OF s] by fastforce
  show "\<forall>k n. fmlookup m k \<noteq> Some (JNum n)"
    using fmpredD [OF s] by fastforce
next
  assume a: "is_CustomSignals newSignals"
    "is_CustomSignals (storedOrEmpty E (InMemoryStorage_getCustomSignals storage))"
    "fst (InMemoryStorage_setCustomSignals E storage newSignals) = Inr r"
  let ?u = "updatedSignals E newSignals (storedOrEmpty E (InMemoryStorage_getCustomSignals storage))"
  from a(3) have "InMemoryStorage_getCustomSignals
      (snd (InMemoryStorage_setCustomSignals E storage newSignals)) = JObj ?u"
    by (simp add: InMemoryStorage_setCustomSignals_cases InMemoryStorage_getCustomSignals_def
        InMemoryStorage_get_def property_def split: if_splits)
  with is_string_updatedSignals [OF a(1,2)]
  show "\<exists>p. InMemoryStorage_getCustomSignals
             (snd (InMemoryStorage_setCustomSignals E storage newSignals)) = JObj p \<and>
           fmpred (\<lambda>k v. is_string v) p"
    by blast
next
  assume a: "is_CustomSignals newSignals"
    "IndexedDbStorage_getCustomSignals this ev_get store = Inr stored"
    "is_CustomSignals (storedOrEmpty E stored)"
    "fst (IndexedDbStorage_setCustomSignals this E newSignals ev_get ev_put store) = Inr r"
  let ?u = "updatedSignals E newSignals (storedOrEmpty E stored)"
  from a(2) have o: "openDbPromise this = None"
    and g: "getWithTransaction this custom_signals ev_get store = Inr stored"
    by (simp_all add: IndexedDbStorage_getCustomSignals_def IndexedDbStorage_get_Inr)
  from a(4) have "IndexedDbStorage_getCustomSignals this onsuccess
      (snd (IndexedDbStorage_setCustomSignals this E newSignals ev_get ev_put store)) = Inr (JObj ?u)"
    by (cases ev_put)
      (simp_all add: IndexedDbStorage_setCustomSignals_cases [OF o g] setWithTransaction_cases
        IndexedDbStorage_getCustomSignals_def IndexedDbStorage_get_def o
        getWithTransaction_onsuccess split: if_splits)
  with is_string_updatedSignals [OF a(1,3)]
  show "\<exists>p. IndexedDbStorage_getCustomSignals this onsuccess
             (snd (IndexedDbStorage_setCustomSignals this E newSignals ev_get ev_put store)) =
               Inr (JObj p) \<and>
           fmpred (\<lambda>k v. is_string v) p"
    by blast
qed

theorem mergeCustomSignals_only_strings_witness:
  "is_CustomSignals example_new \<and> is_CustomSignals example_stored \<and>
   mergeCustomSignals example_env example_new example_stored = Inr example_merged \<and>
   fmpred (\<lambda>k v. is_string v) example_merged \<and>
   (\<exists>p. InMemoryStorage_getCustomSignals
          (snd (InMemoryStorage_setCustomSignals example_env example_memory example_new)) =
            JObj p \<and>
        fmpred (\<lambda>k v. is_string v) p) \<and>
   (\<exists>p. IndexedDbStorage_getCustomSignals example_storage onsuccess
          (snd (IndexedDbStorage_setCustomSignals example_storage example_env example_new
                  onsuccess onsuccess example_store)) = Inr (JObj p) \<and>
        fmpred (\<lambda>k v. is_string v) p)"
proof -
  have n: "is_CustomSignals example_new" and s: "is_CustomSignals example_stored"
    by code_simp+
  have mrg: "mergeCustomSignals example_env example_new example_stored = Inr example_merged"
    by code_simp
  have mem: "is_CustomSignals
      (storedOrEmpty example_env (InMemoryStorage_getCustomSignals example_memory))"
    by code_simp
  have memr: "fst (InMemoryStorage_setCustomSignals example_env example_memory example_new) =
      Inr (JObj example_merged)"
    by code_simp
  have db: "IndexedDbStorage_getCustomSignals example_storage onsuccess example_store =
      Inr (JObj example_stored)"
    by code_simp
  have dbs: "is_CustomSignals (storedOrEmpty example_env (JObj example_stored))"
    by code_simp
  have dbr: "fst (IndexedDbStorage_setCustomSignals example_storage example_env example_new
      onsuccess onsuccess example_store) = Inr (JObj example_merged)"
    by code_simp
  note A = mergeCustomSignals_only_strings [where E = example_env and newSignals = example_new
      and storedSignals = example_stored and m = example_merged and storage = example_memory
      and r = "JObj example_merged" and this = example_storage and ev_get = onsuccess
      and ev_put = onsuccess and store = example_store and stored = "JObj example_stored"]
  from A n s mrg have 1: "fmpred (\<lambda>k v. is_string v) example_merged"
    by blast
  from A n mem memr
  have 2: "\<exists>p. InMemoryStorage_getCustomSignals
          (snd (InMemoryStorage_setCustomSignals example_env example_memory example_new)) =
            JObj p \<and>
        fmpred (\<lambda>k v. is_string v) p"
    by blast
  from A n db dbs dbr
  have 3: "\<exists>p. IndexedDbStorage_getCustomSignals example_storage onsuccess
          (snd (IndexedDbStorage_setCustomSignals example_storage example_env example_new
                  onsuccess onsuccess example_store)) = Inr (JObj p) \<and>
        fmpred (\<lambda>k v. is_string v) p"
    by blast
  from n s mrg 1 2 3 show ?thesis
    by blast
qed

text \<open>
  C10. On a store that holds no custom signals, setCustomSignals with signals that are
  all null (or with no signals) succeeds, persists the empty map and returns it. After
  any successful setCustomSignals, getCustomSignals returns a map, possibly empty, and
  not the absent outcome. Both hold on both backends (on the persistent one, the
  requests succeeding).
\<close>

theorem setCustomSignals_all_null:
  "(InMemoryStorage_getCustomSignals storage = JUndefined \<and>
    fmpred (\<lambda>k v. v = JNull) newSignals \<longrightarrow>
      InMemoryStorage_setCustomSignals E storage newSignals =
        (Inr (JObj fmempty), storage(''custom_signals'' \<mapsto> JObj fmempty)) \<and>
      InMemoryStorage_getCustomSignals (storage(''custom_signals'' \<mapsto> JObj fmempty)) =
        JObj fmempty) \<and>
   (IndexedDbStorage_getCustomSignals this onsuccess store = Inr JUndefined \<and>
    fmpred (\<lambda>k v. v = JNull) newSignals \<longrightarrow>
      IndexedDbStorage_setCustomSignals this E newSignals onsuccess onsuccess store =
        (Inr (JObj fmempty),
         store(createCompositeKey this custom_signals \<mapsto>
           \<lparr>compositeKey = createCompositeKey this custom_signals, value' = JObj fmempty\<rparr>)) \<and>
      IndexedDbStorage_getCustomSignals this onsuccess
        (store(createCompositeKey this custom_signals \<mapsto>
           \<lparr>compositeKey = createCompositeKey this custom_signals, value' = JObj fmempty\<rparr>)) =
        Inr (JObj fmempty)) \<and>
   (fst (InMemoryStorage_setCustomSignals E storage newSignals) = Inr r \<longrightarrow>
      (\<exists>m. InMemoryStorage_getCustomSignals
             (snd (InMemoryStorage_setCustomSignals E storage newSignals)) = JObj m)) \<and>
   (fst (IndexedDbStorage_setCustomSignals this E newSignals ev_get ev_put store) = Inr r \<longrightarrow>
      (\<exists>m. IndexedDbStorage_getCustomSignals this onsuccess
             (snd (IndexedDbStorage_setCustomSignals this E newSignals ev_get ev_put store)) =
               Inr (JObj m)))"
proof (intro conjI impI; (elim conjE)?)
  assume a: "InMemoryStorage_getCustomSignals storage = JUndefined"
    "fmpred (\<lambda>k v. v = JNull) newSignals"
  then have p: "property storage ''custom_signals'' = JUndefined"
    by (simp add: InMemoryStorage_getCustomSignals_def InMemoryStorage_get_def)
  show "InMemoryStorage_setCustomSignals E storage newSignals =
        (Inr (JObj fmempty), storage(''custom_signals'' \<mapsto> JObj fmempty))"
    by (simp add: InMemoryStorage_setCustomSignals_cases p storedOrEmpty_simps
        nullFiltered_spec_all_null [OF a(2)] updatedSignals_all_null [OF a(2)] fcard_fempty)
  show "InMemoryStorage_getCustomSignals (storage(''custom_signals'' \<mapsto> JObj fmempty)) =
        JObj fmempty"
    by (simp add: InMemoryStorage_getCustomSignals_def InMemoryStorage_get_def property_def)
next
  assume a: "IndexedDbStorage_getCustomSignals this onsuccess store = Inr JUndefined"
    "fmpred (\<lambda>k v. v = JNull) newSignals"
  from a(1) have o: "openDbPromise this = None"
    and g: "getWithTransaction this custom_signals onsuccess store = Inr JUndefined"
    by (simp_all add: IndexedDbStorage_getCustomSignals_def IndexedDbStorage_get_Inr)
  show "IndexedDbStorage_setCustomSignals this E newSignals onsuccess onsuccess store =
        (Inr (JObj fmempty),
         store(createCompositeKey this custom_signals \<mapsto>
           \<lparr>compositeKey = createCompositeKey this custom_signals, value' = JObj fmempty\<rparr>))"
    by (simp add: IndexedDbStorage_setCustomSignals_cases [OF o g] storedOrEmpty_simps
        setWithTransaction_cases nullFiltered_spec_all_null [OF a(2)] updatedSignals_all_null [OF a(2)]
        fcard_fempty)
  show "IndexedDbStorage_getCustomSignals this onsuccess
        (store(createCompositeKey this custom_signals \<mapsto>
           \<lparr>compositeKey = createCompositeKey this custom_signals, value' = JObj fmempty\<rparr>)) =
        Inr (JObj fmempty)"
    by (simp add: IndexedDbStorage_getCustomSignals_def IndexedDbStorage_get_def o
        getWithTransaction_onsuccess)
next
  assume "fst (InMemoryStorage_setCustomSignals E storage newSignals) = Inr r"
  then show "\<exists>m. InMemoryStorage_getCustomSignals
             (snd (InMemoryStorage_setCustomSignals E storage newSignals)) = JObj m"
    by (auto simp: InMemoryStorage_setCustomSignals_cases
        InMemoryStorage_getCustomSignals_def InMemoryStorage_get_def property_def
        split: if_splits)
next
  assume a: "fst (IndexedDbStorage_setCustomSignals this E newSignals ev_get ev_put store) = Inr r"
  then have o: "openDbPromise this = None"
    by (cases "openDbPromise this") (simp_all add: IndexedDbStorage_setCustomSignals_def)
  from a o obtain stored where g: "getWithTransaction this custom_signals ev_get store = Inr stored"
    by (cases "getWithTransaction this custom_signals ev_get store")
      (simp_all add: IndexedDbStorage_setCustomSignals_def)
  from a show "\<exists>m. IndexedDbStorage_getCustomSignals this onsuccess
             (snd (IndexedDbStorage_setCustomSignals this E newSignals ev_get ev_put store)) =
               Inr (JObj m)"
    by (cases ev_put)
      (auto simp: IndexedDbStorage_setCustomSignals_cases [OF o g] setWithTransaction_cases
        IndexedDbStorage_getCustomSignals_def IndexedDbStorage_get_def o
        getWithTransaction_onsuccess split: if_splits)
qed

theorem setCustomSignals_all_null_witness:
  "InMemoryStorage_getCustomSignals (InMemoryStorage_new :: int InMemoryStorage) = JUndefined \<and>
   fmpred (\<lambda>k v. v = JNull) example_all_null \<and>
   InMemoryStorage_setCustomSignals example_env InMemoryStorage_new example_all_null =
     (Inr (JObj fmempty), InMemoryStorage_new(''custom_signals'' \<mapsto> JObj fmempty)) \<and>
   IndexedDbStorage_getCustomSignals example_storage onsuccess
     (Map.empty :: int object_store) = Inr JUndefined \<and>
   fst (IndexedDbStorage_setCustomSignals example_storage example_env example_all_null
          onsuccess onsuccess Map.empty) = Inr (JObj fmempty) \<and>
   (\<exists>m. IndexedDbStorage_getCustomSignals example_storage onsuccess
          (snd (IndexedDbStorage_setCustomSignals example_storage example_env example_all_null
                  onsuccess onsuccess Map.empty)) = Inr (JObj m))"
proof -
  have mem: "InMemoryStorage_getCustomSignals (InMemoryStorage_new :: int InMemoryStorage) =
      JUndefined"
    by code_simp
  have nul: "fmpred (\<lambda>k v. v = JNull) example_all_null"
    by code_simp
  have db: "IndexedDbStorage_getCustomSignals example_storage onsuccess
     (Map.empty :: int object_store) = Inr JUndefined"
    by code_simp
  note A = setCustomSignals_all_null [where E = example_env and newSignals = example_all_null
      and storage = InMemoryStorage_new and this = example_storage and store = Map.empty
      and ev_get = onsuccess and ev_put = onsuccess and r = "JObj fmempty"]
  from A mem nul
  have 1: "InMemoryStorage_setCustomSignals example_env InMemoryStorage_new example_all_null =
     (Inr (JObj fmempty), InMemoryStorage_new(''custom_signals'' \<mapsto> JObj fmempty))"
    by blast
  from A db nul
  have 2: "fst (IndexedDbStorage_setCustomSignals example_storage example_env example_all_null
          onsuccess onsuccess Map.empty) = Inr (JObj fmempty)"
    by simp
  with A
  have 3: "\<exists>m. IndexedDbStorage_getCustomSignals example_storage onsuccess
          (snd (IndexedDbStorage_setCustomSignals example_storage example_env example_all_null
                  onsuccess onsuccess Map.empty)) = Inr (JObj m)"
    by blast
  from mem nul 1 db 2 3 show ?thesis
    by blast
qed

end
